theory Spec2Isabelle
  imports Complex_Main "HOL-Library.Sublist"
begin

section \<open>Python values used by the program\<close>

text \<open>
  A Python string is modelled as a \<^typ>\<open>string\<close>, read as the UTF-8 encoding of its text:
  an ASCII character is one byte below 128, and such a byte occurs nowhere else in an
  encoding. All string literals of the program are ASCII.

  \<open>str.lower()\<close> belongs to Python and follows the Unicode case tables, which are not part
  of the program. The functions that call it take it as the parameter \<open>str_lower\<close>, about
  which nothing is assumed.

  On ASCII text \<open>str.lower()\<close> maps \<open>A\<close>..\<open>Z\<close> to \<open>a\<close>..\<open>z\<close> and leaves every other
  character alone. This restriction, \<open>ascii_lower\<close>, stands for \<open>str.lower()\<close> where a
  concrete ASCII input is evaluated, and nowhere else.
\<close>

definition ascii_lower_char :: "char \<Rightarrow> char" where
  "ascii_lower_char c =
     (let n = (of_char c :: nat) in if 65 \<le> n \<and> n \<le> 90 then char_of (n + 32) else c)"

definition ascii_lower :: "string \<Rightarrow> string" where
  "ascii_lower s = map ascii_lower_char s"

text \<open>The operator \<open>needle in hay\<close> on strings: \<open>needle\<close> occurs as a contiguous run.\<close>

definition py_in :: "string \<Rightarrow> string \<Rightarrow> bool" where
  "py_in needle hay = sublist needle hay"

text \<open>\<open>any(p(x) for x in xs)\<close>.\<close>

definition py_any :: "('a \<Rightarrow> bool) \<Rightarrow> 'a list \<Rightarrow> bool" where
  "py_any p xs = list_ex p xs"

text \<open>
  The exceptions that the modelled code raises itself (\<open>NotImplementedError\<close>,
  \<open>ValueError\<close>) or receives from the calls it makes: \<open>input\<close> at end of input
  (\<open>EOFError\<close>), \<open>open\<close> (\<open>OSError\<close>), and the browser's page retrieval
  (\<open>RetrievalError\<close>).
\<close>

datatype error =
    NotImplementedError string
  | ValueError string
  | EOFError
  | OSError
  | RetrievalError

text \<open>
  The values stored in a pause event and written by \<open>json.dump\<close>: strings, booleans,
  floats, lists, and dicts with string keys in insertion order.
\<close>

datatype pyval =
    PyStr string
  | PyBool bool
  | PyFloat real
  | PyList "pyval list"
  | PyDict "(string \<times> pyval) list"

section \<open>The agent handle seen by the conditions\<close>

text \<open>
  \<open>agent_obj.browser_context\<close> offers the attribute \<open>current_url\<close> and the awaitable
  \<open>get_page_html()\<close>, which belongs to the browser library; the field holds what awaiting
  it gives: the markup, or the exception it raises.
\<close>

record browser_context =
  current_url :: string
  get_page_html :: "error + string"

record agent_obj =
  browser_context :: browser_context

type_synonym pause_condition = "agent_obj \<Rightarrow> error + bool"

section \<open>The process state\<close>

text \<open>\<open>PauseManager\<close> of utils.py: a list of event dicts and an (unused) dict.\<close>

record PauseManager =
  pause_history :: "(string \<times> pyval) list list"
  input_history :: "(string \<times> pyval) list"

text \<open>
  The part of the process that the modelled methods can reach besides \<open>self\<close>: the console
  (lines not yet read from standard input, text written to standard output), and the
  \<open>PauseManager\<close> object that the driver scripts create beside the agent. The field
  \<open>invoked\<close> is an observation only: the positions, in \<open>pause_conditions\<close>, of the
  predicates that have been awaited.
\<close>

record world =
  stdin :: "string list"
  stdout :: string
  manager :: PauseManager
  invoked :: "nat list"

definition py_print :: "string \<Rightarrow> world \<Rightarrow> world" where
  "py_print s w = w\<lparr>stdout := stdout w @ s @ ''\<newline>''\<rparr>"

text \<open>\<open>input(prompt)\<close>: writes the prompt, then reads one line or raises at end of input.\<close>

definition py_input :: "string \<Rightarrow> world \<Rightarrow> (error + string) \<times> world" where
  "py_input prompt w =
     (let w1 = w\<lparr>stdout := stdout w @ prompt\<rparr> in
      case stdin w1 of
        [] \<Rightarrow> (Inl EOFError, w1)
      | line # rest \<Rightarrow> (Inr line, w1\<lparr>stdin := rest\<rparr>))"

section \<open>UserInputHandler\<close>

record UserInputHandler =
  input_method :: string

text \<open>The constructor stores its argument; it has no raising path.\<close>

definition UserInputHandler_init :: "string \<Rightarrow> error + UserInputHandler" where
  "UserInputHandler_init method = Inr \<lparr>input_method = method\<rparr>"

definition get_input ::
  "UserInputHandler \<Rightarrow> string \<Rightarrow> world \<Rightarrow> (error + string) \<times> world" where
  "get_input self prompt w =
     (if input_method self = ''console'' then py_input prompt w
      else if input_method self = ''web''
        then (Inl (NotImplementedError ''Web-based input not yet implemented''), w)
      else (Inl (ValueError (''Unknown input method: '' @ input_method self)), w))"

section \<open>PauseHook\<close>

record PauseHook =
  agent :: agent_obj
  paused :: bool
  pause_conditions :: "(pause_condition \<times> string) list"
  user_input :: "string option"
  input_handler :: UserInputHandler

definition PauseHook_init :: "agent_obj \<Rightarrow> UserInputHandler option \<Rightarrow> error + PauseHook" where
  "PauseHook_init ag handler =
     (case (case handler of Some ih \<Rightarrow> Inr ih | None \<Rightarrow> UserInputHandler_init ''console'') of
        Inl e \<Rightarrow> Inl e
      | Inr ih \<Rightarrow>
          Inr \<lparr>agent = ag, paused = False, pause_conditions = [], user_input = None,
               input_handler = ih\<rparr>)"

text \<open>
  A method returns its outcome together with \<open>self\<close> and the world as they are when it
  returns or raises: what was written before an exception stays written.
\<close>

definition handle_pause ::
  "PauseHook \<Rightarrow> agent_obj \<Rightarrow> string \<Rightarrow> world \<Rightarrow> (error + unit) \<times> PauseHook \<times> world" where
  "handle_pause self ag message w =
     (let w1 = py_print (''\<newline>'' @ replicate 50 (CHR ''='')) w;
          w2 = py_print (''EXECUTION PAUSED: '' @ message) w1;
          w3 = py_print (replicate 50 (CHR ''='')) w2
      in case get_input (input_handler self) ''Enter your input: '' w3 of
           (Inl e, w4) \<Rightarrow> (Inl e, self, w4)
         | (Inr answer, w4) \<Rightarrow>
             (Inr (), self\<lparr>user_input := Some answer, paused := False\<rparr>,
              py_print (''Continuing execution...'' @ ''\<newline>'') w4))"

text \<open>
  The \<open>for\<close> loop of \<open>check_pause_condition\<close> over the remaining conditions; \<open>i\<close> is the
  position of the head of the list. A true predicate ends the loop (\<open>break\<close>) after
  \<open>handle_pause\<close>; an exception leaves it at once.
\<close>

fun check_loop ::
  "(pause_condition \<times> string) list \<Rightarrow> nat \<Rightarrow> PauseHook \<Rightarrow> agent_obj \<Rightarrow> world
     \<Rightarrow> (error + unit) \<times> PauseHook \<times> world" where
  "check_loop [] i self ag w = (Inr (), self, w)"
| "check_loop ((condition, message) # rest) i self ag w =
     (let w1 = w\<lparr>invoked := invoked w @ [i]\<rparr> in
      case condition ag of
        Inl e \<Rightarrow> (Inl e, self, w1)
      | Inr b \<Rightarrow>
          if b then handle_pause (self\<lparr>paused := True\<rparr>) ag message w1
          else check_loop rest (Suc i) self ag w1)"

definition check_pause_condition ::
  "PauseHook \<Rightarrow> agent_obj \<Rightarrow> world \<Rightarrow> (error + unit) \<times> PauseHook \<times> world" where
  "check_pause_condition self ag w = check_loop (pause_conditions self) 0 self ag w"

definition add_pause_condition :: "PauseHook \<Rightarrow> pause_condition \<Rightarrow> string \<Rightarrow> PauseHook" where
  "add_pause_condition self condition message =
     self\<lparr>pause_conditions := pause_conditions self @ [(condition, message)]\<rparr>"

section \<open>PauseConditions\<close>

definition password_field :: pause_condition where
  \<open>password_field ag =
     (case get_page_html (browser_context ag) of
        Inl e \<Rightarrow> Inl e
      | Inr page_content \<Rightarrow> Inr (py_in ''type="password"'' page_content))\<close>

definition login_page :: "(string \<Rightarrow> string) \<Rightarrow> pause_condition" where
  "login_page str_lower ag =
     (let url = current_url (browser_context ag)
      in Inr (py_any (\<lambda>term. py_in term (str_lower url)) [''login'', ''signin'', ''auth'']))"

definition custom_condition :: "pause_condition \<Rightarrow> pause_condition" where
  "custom_condition check_function = (\<lambda>ag. check_function ag)"

section \<open>AdvancedPauseConditions\<close>

definition payment_indicators :: "string list" where
  "payment_indicators =
     [''credit card'', ''debit card'', ''card number'', ''cvv'', ''cvc'',
      ''expiration date'', ''expiry date'', ''billing address'']"

definition payment_form :: "(string \<Rightarrow> string) \<Rightarrow> pause_condition" where
  "payment_form str_lower ag =
     (case get_page_html (browser_context ag) of
        Inl e \<Rightarrow> Inl e
      | Inr page_content \<Rightarrow>
          Inr (py_any (\<lambda>indicator. py_in indicator (str_lower page_content))
                 payment_indicators))"

definition two_factor_indicators :: "string list" where
  "two_factor_indicators =
     [''two-factor'', ''two factor'', ''2fa'', ''verification code'',
      ''security code'', ''authenticate'', ''verification'']"

definition two_factor_auth :: "(string \<Rightarrow> string) \<Rightarrow> pause_condition" where
  "two_factor_auth str_lower ag =
     (case get_page_html (browser_context ag) of
        Inl e \<Rightarrow> Inl e
      | Inr page_content \<Rightarrow>
          (let url = current_url (browser_context ag)
           in Inr (py_any (\<lambda>indicator. py_in indicator (str_lower url)
                                        \<or> py_in indicator (str_lower page_content))
                     two_factor_indicators)))"

definition captcha_indicators :: "string list" where
  "captcha_indicators =
     [''captcha'', ''recaptcha'', ''i'' @ [CHR 0x27] @ ''m not a robot'', ''im not a robot'',
      ''verify you'' @ [CHR 0x27] @ ''re human'', ''verify youre human'']"

definition captcha :: "(string \<Rightarrow> string) \<Rightarrow> pause_condition" where
  "captcha str_lower ag =
     (case get_page_html (browser_context ag) of
        Inl e \<Rightarrow> Inl e
      | Inr page_content \<Rightarrow>
          Inr (py_any (\<lambda>indicator. py_in indicator (str_lower page_content))
                 captcha_indicators))"

definition personal_info_indicators :: "string list" where
  "personal_info_indicators =
     [''social security'', ''ssn'', ''date of birth'', ''birthdate'',
      ''passport'', ''driver'' @ [CHR 0x27] @ ''s license'', ''drivers license'',
      ''identity verification'', ''government id'']"

definition personal_information_form :: "(string \<Rightarrow> string) \<Rightarrow> pause_condition" where
  "personal_information_form str_lower ag =
     (case get_page_html (browser_context ag) of
        Inl e \<Rightarrow> Inl e
      | Inr page_content \<Rightarrow>
          Inr (py_any (\<lambda>indicator. py_in indicator (str_lower page_content))
                 personal_info_indicators))"

section \<open>PauseManager\<close>

definition PauseManager_init :: PauseManager where
  "PauseManager_init = \<lparr>pause_history = [], input_history = []\<rparr>"

text \<open>
  \<open>record_pause\<close>; \<open>loop_time\<close> is what \<open>asyncio.get_event_loop().time()\<close> returns at the
  call. The local \<open>sanitized_input\<close> is computed and never used.
\<close>

definition record_pause ::
  "PauseManager \<Rightarrow> string \<Rightarrow> string \<Rightarrow> string \<Rightarrow> real \<Rightarrow> PauseManager" where
  "record_pause self url reason input loop_time =
     (let sanitized_input = (if input \<noteq> [] then ''[INPUT PROVIDED]'' else ''[NO INPUT]'');
          pause_event =
            [(''url'', PyStr url),
             (''reason'', PyStr reason),
             (''input_provided'', PyBool (input \<noteq> [])),
             (''timestamp'', PyFloat loop_time)]
      in self\<lparr>pause_history := pause_history self @ [pause_event]\<rparr>)"

definition get_pause_history :: "PauseManager \<Rightarrow> (string \<times> pyval) list list" where
  "get_pause_history self = pause_history self"

text \<open>
  Files hold JSON documents. A document is identified with the value that \<open>json.load\<close>
  returns for it, which for lists, string-keyed dicts, strings, booleans and finite floats
  is the value \<open>json.dump\<close> was given; the layout of the text (\<open>indent=2\<close>) is below
  this model. \<open>open(filename, 'w')\<close> raises \<open>OSError\<close> where the path cannot be written.
\<close>

record filesystem =
  files :: "string \<rightharpoonup> pyval"
  writable :: "string \<Rightarrow> bool"

definition save_history :: "PauseManager \<Rightarrow> string \<Rightarrow> filesystem \<Rightarrow> error + filesystem" where
  "save_history self filename fs =
     (if writable fs filename
      then Inr (fs\<lparr>files := (files fs)(filename \<mapsto> PyList (map PyDict (pause_history self)))\<rparr>)
      else Inl OSError)"

section \<open>Notions used to state the properties\<close>

text \<open>
  Two characters are the same ASCII letter when they are equal or one is the lower-case
  form of the other, an ASCII letter; two strings differ only in the case of ASCII letters
  when they agree in this sense position by position.
\<close>

definition same_ascii_letter :: "char \<Rightarrow> char \<Rightarrow> bool" where
  "same_ascii_letter c d = (c = d \<or> ascii_lower_char c = d \<or> c = ascii_lower_char d)"

definition differ_only_in_ascii_case :: "string \<Rightarrow> string \<Rightarrow> bool" where
  "differ_only_in_ascii_case a b = list_all2 same_ascii_letter a b"

text \<open>The three \<open>print\<close> calls that open \<open>handle_pause\<close>, as one step.\<close>

definition banner :: "string \<Rightarrow> world \<Rightarrow> world" where
  "banner message w =
     py_print (replicate 50 (CHR ''=''))
       (py_print (''EXECUTION PAUSED: '' @ message)
          (py_print (''\<newline>'' @ replicate 50 (CHR ''='')) w))"

text \<open>
  A sequence of \<open>record_pause\<close> calls on one manager, each given as its arguments and the
  clock reading at the call.
\<close>

fun record_all ::
  "PauseManager \<Rightarrow> (string \<times> string \<times> string \<times> real) list \<Rightarrow> PauseManager" where
  "record_all m [] = m"
| "record_all m ((url, reason, input, loop_time) # calls) =
     record_all (record_pause m url reason input loop_time) calls"

definition event_of :: "string \<times> string \<times> string \<times> real \<Rightarrow> (string \<times> pyval) list" where
  "event_of call =
     (case call of (url, reason, input, loop_time) \<Rightarrow>
        [(''url'', PyStr url), (''reason'', PyStr reason),
         (''input_provided'', PyBool (input \<noteq> [])), (''timestamp'', PyFloat loop_time)])"

text \<open>An event dict with its \<open>timestamp\<close> entry removed.\<close>

definition without_timestamp :: "(string \<times> pyval) list \<Rightarrow> (string \<times> pyval) list" where
  "without_timestamp event = filter (\<lambda>kv. fst kv \<noteq> ''timestamp'') event"

section \<open>Concrete inputs\<close>

text \<open>
  A sign-in page without a password field, and a hook set up as quick\_demo.py does:
  \<open>password_field\<close>, \<open>login_page\<close>, \<open>captcha\<close>, in this order, on the console channel.
\<close>

definition signin_page :: agent_obj where
  "signin_page = \<lparr>browser_context = \<lparr>current_url = ''https://example.com/signin'',
       get_page_html = Inr ''<html><body>Welcome back</body></html>''\<rparr>\<rparr>"

definition dashboard_page :: agent_obj where
  "dashboard_page = \<lparr>browser_context = \<lparr>current_url = ''https://example.com/dashboard'',
       get_page_html = Inr ''<html><body>Overview</body></html>''\<rparr>\<rparr>"

definition demo_hook :: PauseHook where
  "demo_hook =
     add_pause_condition
       (add_pause_condition
          (add_pause_condition
             \<lparr>agent = signin_page, paused = False, pause_conditions = [], user_input = None,
              input_handler = \<lparr>input_method = ''console''\<rparr>\<rparr>
             password_field ''Password field detected.'')
          (login_page ascii_lower) ''Login page detected.'')
       (captcha ascii_lower) ''CAPTCHA detected.''"

definition demo_world :: "string list \<Rightarrow> world" where
  "demo_world lines =
     \<lparr>stdin = lines, stdout = [], manager = \<lparr>pause_history = [], input_history = []\<rparr>,
      invoked = []\<rparr>"

definition upper_page :: agent_obj where
  "upper_page = \<lparr>browser_context = \<lparr>current_url = ''https://example.com/LOGIN'',
       get_page_html = Inr ''Please enter your CVV and the Verification Code''\<rparr>\<rparr>"

definition lower_page :: agent_obj where
  "lower_page = \<lparr>browser_context = \<lparr>current_url = ''https://example.com/login'',
       get_page_html = Inr ''please enter your cvv and the verification code''\<rparr>\<rparr>"

definition demo_fs :: filesystem where
  "demo_fs = \<lparr>files = Map.empty, writable = (\<lambda>path. path \<noteq> [])\<rparr>"

definition demo_calls :: "(string \<times> string \<times> string \<times> real) list" where
  "demo_calls =
     [(''https://example.com/signin'', ''Login page detected.'', ''hunter2'', 12.5),
      (''https://example.com/pay'', ''Payment page detected.'', [], 12.5),
      (''https://example.com/2fa'', ''Code required.'', ''123456'', 40)]"

section \<open>Strings\<close>

lemma py_in_iff: "py_in needle hay \<longleftrightarrow> (\<exists>pre post. hay = pre @ needle @ post)"
  by (simp add: py_in_def sublist_def)

lemma py_any_iff: "py_any p xs \<longleftrightarrow> (\<exists>x\<in>set xs. p x)"
  by (simp add: py_any_def list_ex_iff)

lemma ascii_lower_char_idem: "ascii_lower_char (ascii_lower_char c) = ascii_lower_char c"
proof -
  have "of_char (char_of (n + 32 :: nat)) = n + 32" if "n \<le> 90" for n
    using that by simp
  then show ?thesis
    by (auto simp: ascii_lower_char_def Let_def)
qed

lemma same_ascii_letter_lower:
  "same_ascii_letter c d \<Longrightarrow> ascii_lower_char c = ascii_lower_char d"
  by (auto simp: same_ascii_letter_def ascii_lower_char_idem)

lemma differ_only_in_ascii_case_lower:
  "differ_only_in_ascii_case a b \<Longrightarrow> ascii_lower a = ascii_lower b"
  unfolding differ_only_in_ascii_case_def ascii_lower_def
  by (induction a b rule: list_all2_induct) (auto dest: same_ascii_letter_lower)

section \<open>The input channel and \<open>handle_pause\<close>\<close>

lemma get_input_cases:
  "get_input ih prompt w =
     (if input_method ih = ''console''
      then (case stdin w of
              [] \<Rightarrow> (Inl EOFError, w\<lparr>stdout := stdout w @ prompt\<rparr>)
            | line # rest \<Rightarrow> (Inr line, w\<lparr>stdout := stdout w @ prompt, stdin := rest\<rparr>))
      else if input_method ih = ''web''
        then (Inl (NotImplementedError ''Web-based input not yet implemented''), w)
      else (Inl (ValueError (''Unknown input method: '' @ input_method ih)), w))"
  by (simp add: get_input_def py_input_def Let_def split: list.splits)

text \<open>Whether the channel answers depends on its kind and on standard input only.\<close>

lemma get_input_outcome_stdin:
  "stdin w1 = stdin w2 \<Longrightarrow> fst (get_input ih prompt w1) = fst (get_input ih prompt w2)"
  by (simp add: get_input_cases split: list.splits)

lemma get_input_frame:
  "get_input ih prompt w = (r, w') \<Longrightarrow> manager w' = manager w \<and> invoked w' = invoked w"
  by (auto simp: get_input_cases split: if_splits list.splits)

lemma banner_frame [simp]:
  "stdin (banner message w) = stdin w" "manager (banner message w) = manager w"
  "invoked (banner message w) = invoked w"
  by (simp_all add: banner_def py_print_def)

lemma handle_pause_unfold:
  "handle_pause self ag message w =
     (case get_input (input_handler self) ''Enter your input: '' (banner message w) of
        (Inl e, w4) \<Rightarrow> (Inl e, self, w4)
      | (Inr answer, w4) \<Rightarrow>
          (Inr (), self\<lparr>user_input := Some answer, paused := False\<rparr>,
           py_print (''Continuing execution...'' @ ''\<newline>'') w4))"
  by (simp add: handle_pause_def banner_def Let_def)

lemma handle_pause_frame:
  assumes "handle_pause self ag message w = (r, self', w')"
  shows "manager w' = manager w \<and> invoked w' = invoked w
       \<and> self' = self\<lparr>paused := paused self', user_input := user_input self'\<rparr>"
proof (cases "get_input (input_handler self) ''Enter your input: '' (banner message w)")
  case (Pair res w4)
  from get_input_frame [OF Pair] have f: "manager w4 = manager w" "invoked w4 = invoked w"
    by simp_all
  show ?thesis
  proof (cases res)
    case (Inl e)
    with assms Pair f show ?thesis by (simp add: handle_pause_unfold)
  next
    case (Inr answer)
    with assms Pair f show ?thesis by (auto simp: handle_pause_unfold py_print_def)
  qed
qed

lemma handle_pause_ok:
  assumes "handle_pause self ag message w = (Inr (), self', w')"
  shows "paused self' = False"
proof (cases "get_input (input_handler self) ''Enter your input: '' (banner message w)")
  case (Pair res w4)
  with assms show ?thesis
    by (cases res) (auto simp: handle_pause_unfold)
qed

lemma handle_pause_error:
  assumes "handle_pause self ag message w = (Inl e, self', w')"
  shows "self' = self \<and> fst (get_input (input_handler self) ''Enter your input: '' w) = Inl e"
proof (cases "get_input (input_handler self) ''Enter your input: '' (banner message w)")
  case (Pair res w4)
  with assms have 1: "self' = self" and 2: "res = Inl e"
    by (cases res; simp add: handle_pause_unfold)+
  have "fst (get_input (input_handler self) ''Enter your input: '' w)
        = fst (get_input (input_handler self) ''Enter your input: '' (banner message w))"
    by (rule get_input_outcome_stdin) simp
  with Pair 1 2 show ?thesis by simp
qed

section \<open>The loop of \<open>check_pause_condition\<close>\<close>

text \<open>When no predicate is true and none raises, every predicate is awaited.\<close>

lemma check_loop_no_match:
  assumes "\<forall>j<length cs. fst (cs ! j) ag = Inr False"
  shows "check_loop cs i self ag w =
           (Inr (), self, w\<lparr>invoked := invoked w @ [i..<i + length cs]\<rparr>)"
  using assms
proof (induction cs arbitrary: i w)
  case Nil
  then show ?case by simp
next
  case (Cons c cs)
  obtain p m where c: "c = (p, m)" by (cases c)
  from Cons.prems have hd: "p ag = Inr False" using c by force
  from Cons.prems have tl: "\<forall>j<length cs. fst (cs ! j) ag = Inr False" by force
  have u: "[i..<i + length (c # cs)] = i # [Suc i..<Suc i + length cs]"
    by (simp add: upt_rec [of i] del: upt_Suc)
  show ?case
    unfolding u using hd Cons.IH [OF tl] c by simp
qed

text \<open>The loop skips the predicates that are false before position \<open>k\<close>.\<close>

lemma check_loop_first:
  assumes "k < length cs" and "\<forall>j<k. fst (cs ! j) ag = Inr False"
  shows "check_loop cs i self ag w =
           check_loop (drop k cs) (i + k) self ag (w\<lparr>invoked := invoked w @ [i..<i + k]\<rparr>)"
  using assms
proof (induction k arbitrary: cs i w)
  case 0
  then show ?case by simp
next
  case (Suc k)
  then obtain p m rest where cs: "cs = (p, m) # rest" by (cases cs) auto
  from Suc.prems have hd: "p ag = Inr False" using cs by force
  from Suc.prems have len: "k < length rest" using cs by simp
  from Suc.prems have tl: "\<forall>j<k. fst (rest ! j) ag = Inr False" using cs by force
  have u: "[i..<i + Suc k] = i # [Suc i..<Suc i + k]"
    by (simp add: upt_rec [of i] del: upt_Suc)
  show ?case
    unfolding u using hd Suc.IH [OF len tl] cs by simp
qed

lemma check_loop_match:
  assumes "k < length cs" and "\<forall>j<k. fst (cs ! j) ag = Inr False"
    and "fst (cs ! k) ag = Inr True"
  shows "check_loop cs i self ag w =
           handle_pause (self\<lparr>paused := True\<rparr>) ag (snd (cs ! k))
             (w\<lparr>invoked := invoked w @ [i..<Suc (i + k)]\<rparr>)"
proof -
  from assms(1) obtain p m rest where d: "drop k cs = (p, m) # rest" and n: "cs ! k = (p, m)"
    by (metis Cons_nth_drop_Suc surj_pair)
  show ?thesis
    using assms(3) n by (simp add: check_loop_first [OF assms(1,2)] d)
qed

lemma check_loop_raise:
  assumes "k < length cs" and "\<forall>j<k. fst (cs ! j) ag = Inr False"
    and "fst (cs ! k) ag = Inl e"
  shows "check_loop cs i self ag w =
           (Inl e, self, w\<lparr>invoked := invoked w @ [i..<Suc (i + k)]\<rparr>)"
proof -
  from assms(1) obtain p m rest where d: "drop k cs = (p, m) # rest" and n: "cs ! k = (p, m)"
    by (metis Cons_nth_drop_Suc surj_pair)
  show ?thesis
    using assms(3) n by (simp add: check_loop_first [OF assms(1,2)] d)
qed

text \<open>
  For a given agent, a list of conditions has no true or raising predicate, or a first
  one that is true, or a first one that raises.
\<close>

lemma conditions_cases:
  fixes cs :: "(pause_condition \<times> string) list"
  obtains (no_match) "\<forall>j<length cs. fst (cs ! j) ag = Inr False"
  | (match) k where "k < length cs" "\<forall>j<k. fst (cs ! j) ag = Inr False"
      "fst (cs ! k) ag = Inr True"
  | (raise) k e where "k < length cs" "\<forall>j<k. fst (cs ! j) ag = Inr False"
      "fst (cs ! k) ag = Inl e"
proof (cases "\<forall>j<length cs. fst (cs ! j) ag = Inr False")
  case True
  then show ?thesis by (rule no_match)
next
  case False
  define k where "k = (LEAST j. j < length cs \<and> fst (cs ! j) ag \<noteq> Inr False)"
  from False have ex: "\<exists>j. j < length cs \<and> fst (cs ! j) ag \<noteq> Inr False" by blast
  from LeastI_ex [OF ex] have k: "k < length cs" "fst (cs ! k) ag \<noteq> Inr False"
    unfolding k_def by blast+
  have before: "\<forall>j<k. fst (cs ! j) ag = Inr False"
  proof (intro allI impI)
    fix j assume "j < k"
    then have "\<not> (j < length cs \<and> fst (cs ! j) ag \<noteq> Inr False)"
      unfolding k_def by (rule not_less_Least)
    with \<open>j < k\<close> k(1) show "fst (cs ! j) ag = Inr False" by simp
  qed
  show ?thesis
  proof (cases "fst (cs ! k) ag")
    case (Inl e)
    with k(1) before show ?thesis by (rule raise)
  next
    case (Inr b)
    with k(2) have "fst (cs ! k) ag = Inr True" by simp
    with k(1) before show ?thesis by (rule match)
  qed
qed

lemma check_loop_frame:
  assumes "check_loop cs i self ag w = (r, self', w')"
  shows "manager w' = manager w
       \<and> self' = self\<lparr>paused := paused self', user_input := user_input self'\<rparr>"
proof (cases cs ag rule: conditions_cases)
  case no_match
  from assms show ?thesis unfolding check_loop_no_match [OF no_match] by auto
next
  case (match k)
  from assms have "handle_pause (self\<lparr>paused := True\<rparr>) ag (snd (cs ! k))
                     (w\<lparr>invoked := invoked w @ [i..<Suc (i + k)]\<rparr>) = (r, self', w')"
    unfolding check_loop_match [OF match] .
  from handle_pause_frame [OF this] show ?thesis by simp
next
  case (raise k e)
  from assms show ?thesis unfolding check_loop_raise [OF raise] by auto
qed

lemma demo_conditions:
  "pause_conditions demo_hook =
     [(password_field, ''Password field detected.''),
      (login_page ascii_lower, ''Login page detected.''),
      (captcha ascii_lower, ''CAPTCHA detected.'')]"
  by (simp add: demo_hook_def add_pause_condition_def)

lemma demo_signin_values:
  "password_field signin_page = Inr False" "login_page ascii_lower signin_page = Inr True"
  "captcha ascii_lower signin_page = Inr False"
  by code_simp+

lemma demo_dashboard_values:
  "password_field dashboard_page = Inr False"
  "login_page ascii_lower dashboard_page = Inr False"
  "captcha ascii_lower dashboard_page = Inr False"
  by code_simp+

section \<open>Recording and the Paused to Running transition\<close>

text \<open>
  C1, as the code has it. The claim expects one PauseEvent to be appended to the history
  by a matching \<open>check_pause_condition\<close>. \<open>PauseHook\<close> holds no \<open>PauseManager\<close> and none
  of its methods calls \<open>record_pause\<close>: on the sign-in page \<open>login_page\<close> matches, the
  console answers, the call returns normally with the answer stored, and the history is
  as empty as before.
\<close>

theorem pause_not_recorded:
  "login_page ascii_lower signin_page = Inr True
   \<and> fst (check_pause_condition demo_hook signin_page (demo_world [''hunter2''])) = Inr ()
   \<and> user_input (fst (snd (check_pause_condition demo_hook signin_page (demo_world [''hunter2'']))))
       = Some ''hunter2''
   \<and> pause_history (manager (demo_world [''hunter2''])) = []
   \<and> pause_history (manager (snd (snd
         (check_pause_condition demo_hook signin_page (demo_world [''hunter2''])))))  = []"
  by code_simp

text \<open>
  C1, amended: \<open>check_pause_condition\<close> leaves the \<open>PauseManager\<close> as it was, whether or
  not a condition matches and whatever the outcome. An event is appended by a call of
  \<open>record_pause\<close> only, which appends exactly one dict: \<open>url\<close> and \<open>reason\<close> as given,
  \<open>input_provided\<close> true exactly for a non-empty input, \<open>timestamp\<close> the clock reading at
  that call.
\<close>

theorem check_pause_condition_records_nothing:
  "manager (snd (snd (check_pause_condition self ag w))) = manager w
   \<and> pause_history (record_pause m url reason input loop_time)
       = pause_history m @
           [[(''url'', PyStr url), (''reason'', PyStr reason),
             (''input_provided'', PyBool (input \<noteq> [])), (''timestamp'', PyFloat loop_time)]]"
proof
  obtain r self' w' where c: "check_loop (pause_conditions self) 0 self ag w = (r, self', w')"
    using prod_cases3 by blast
  from check_loop_frame [OF c]
  show "manager (snd (snd (check_pause_condition self ag w))) = manager w"
    by (simp add: check_pause_condition_def c)
  show "pause_history (record_pause m url reason input loop_time)
       = pause_history m @
           [[(''url'', PyStr url), (''reason'', PyStr reason),
             (''input_provided'', PyBool (input \<noteq> [])), (''timestamp'', PyFloat loop_time)]]"
    by (simp add: record_pause_def)
qed

theorem check_pause_condition_records_nothing_witness:
  "manager (snd (snd (check_pause_condition demo_hook signin_page (demo_world [''hunter2'']))))
     = \<lparr>pause_history = [], input_history = []\<rparr>
   \<and> pause_history (record_pause PauseManager_init ''https://example.com/signin''
        ''Login page detected.'' ''hunter2'' 12.5)
       = [[(''url'', PyStr ''https://example.com/signin''),
           (''reason'', PyStr ''Login page detected.''),
           (''input_provided'', PyBool True), (''timestamp'', PyFloat 12.5)]]"
  using check_pause_condition_records_nothing [of demo_hook signin_page "demo_world [''hunter2'']"
      PauseManager_init "''https://example.com/signin''" "''Login page detected.''" "''hunter2''"
      "12.5"]
  by (simp add: demo_world_def PauseManager_init_def)

section \<open>Short-circuit evaluation\<close>

text \<open>
  C2: when the predicates at positions \<open>0..k-1\<close> return false and the predicate at
  position \<open>k\<close> returns true, \<open>check_pause_condition\<close> awaits the predicates at positions
  \<open>0..k\<close>, in this order, and no other.
\<close>

theorem check_pause_condition_short_circuit:
  assumes "k < length (pause_conditions self)"
    and "\<forall>j<k. fst (pause_conditions self ! j) ag = Inr False"
    and "fst (pause_conditions self ! k) ag = Inr True"
  shows "invoked (snd (snd (check_pause_condition self ag w))) = invoked w @ [0..<Suc k]"
proof -
  obtain r self' w' where
    h: "handle_pause (self\<lparr>paused := True\<rparr>) ag (snd (pause_conditions self ! k))
          (w\<lparr>invoked := invoked w @ [0..<Suc (0 + k)]\<rparr>) = (r, self', w')"
    using prod_cases3 by blast
  from handle_pause_frame [OF h] have "invoked w' = invoked w @ [0..<Suc k]" by simp
  then show ?thesis
    unfolding check_pause_condition_def check_loop_match [OF assms] h by simp
qed

theorem check_pause_condition_short_circuit_witness:
  "(1::nat) < length (pause_conditions demo_hook)
   \<and> fst (pause_conditions demo_hook ! 0) signin_page = Inr False
   \<and> fst (pause_conditions demo_hook ! 1) signin_page = Inr True
   \<and> invoked (snd (snd (check_pause_condition demo_hook signin_page (demo_world [''hunter2'']))))
       = [0, 1]"
proof -
  have a: "(1::nat) < length (pause_conditions demo_hook)"
    by (simp add: demo_conditions)
  have b0: "fst (pause_conditions demo_hook ! 0) signin_page = Inr False"
    by (simp add: demo_conditions demo_signin_values)
  then have b: "\<forall>j<1. fst (pause_conditions demo_hook ! j) signin_page = Inr False"
    by simp
  have c: "fst (pause_conditions demo_hook ! 1) signin_page = Inr True"
    by (simp add: demo_conditions demo_signin_values)
  have "invoked (demo_world [''hunter2'']) = []" by (simp add: demo_world_def)
  with check_pause_condition_short_circuit [OF a b c, of "demo_world [''hunter2'']"] a b0 c
  show ?thesis by (simp add: upt_rec)
qed

section \<open>The paused flag\<close>

text \<open>
  The two ways a matching call ends. When the input channel answers, the answer is stored
  and the flag is reset; when it raises, the exception leaves \<open>handle_pause\<close> before the
  reset is reached, and the flag set by \<open>check_pause_condition\<close> stays.
\<close>

lemma check_pause_condition_pause_completes:
  assumes "k < length (pause_conditions self)"
    and "\<forall>j<k. fst (pause_conditions self ! j) ag = Inr False"
    and "fst (pause_conditions self ! k) ag = Inr True"
    and "fst (get_input (input_handler self) ''Enter your input: '' w) = Inr answer"
  shows "fst (check_pause_condition self ag w) = Inr ()
       \<and> fst (snd (check_pause_condition self ag w))
           = self\<lparr>paused := False, user_input := Some answer\<rparr>"
proof -
  let ?w = "banner (snd (pause_conditions self ! k))
              (w\<lparr>invoked := invoked w @ [0..<Suc (0 + k)]\<rparr>)"
  have "fst (get_input (input_handler self) ''Enter your input: '' ?w)
          = fst (get_input (input_handler self) ''Enter your input: '' w)"
    by (rule get_input_outcome_stdin) simp
  with assms(4) obtain w4 where
    "get_input (input_handler self) ''Enter your input: '' ?w = (Inr answer, w4)"
    by (metis prod.collapse)
  then show ?thesis
    unfolding check_pause_condition_def check_loop_match [OF assms(1-3)]
    by (simp add: handle_pause_unfold)
qed

lemma check_pause_condition_input_failure:
  assumes "k < length (pause_conditions self)"
    and "\<forall>j<k. fst (pause_conditions self ! j) ag = Inr False"
    and "fst (pause_conditions self ! k) ag = Inr True"
    and "fst (get_input (input_handler self) ''Enter your input: '' w) = Inl e"
  shows "fst (check_pause_condition self ag w) = Inl e
       \<and> fst (snd (check_pause_condition self ag w)) = self\<lparr>paused := True\<rparr>"
proof -
  let ?w = "banner (snd (pause_conditions self ! k))
              (w\<lparr>invoked := invoked w @ [0..<Suc (0 + k)]\<rparr>)"
  have "fst (get_input (input_handler self) ''Enter your input: '' ?w)
          = fst (get_input (input_handler self) ''Enter your input: '' w)"
    by (rule get_input_outcome_stdin) simp
  with assms(4) obtain w4 where
    "get_input (input_handler self) ''Enter your input: '' ?w = (Inl e, w4)"
    by (metis prod.collapse)
  then show ?thesis
    unfolding check_pause_condition_def check_loop_match [OF assms(1-3)]
    by (simp add: handle_pause_unfold)
qed

text \<open>A predicate that raises before any match leaves the hook untouched.\<close>

lemma check_pause_condition_predicate_failure:
  assumes "k < length (pause_conditions self)"
    and "\<forall>j<k. fst (pause_conditions self ! j) ag = Inr False"
    and "fst (pause_conditions self ! k) ag = Inl e"
  shows "fst (check_pause_condition self ag w) = Inl e
       \<and> fst (snd (check_pause_condition self ag w)) = self"
  unfolding check_pause_condition_def check_loop_raise [OF assms] by simp

text \<open>
  After a normal return the flag is true exactly when it was true before the call and no
  predicate matched: a completed pause resets it, a call without a match leaves it.
\<close>

lemma paused_after_normal_return:
  assumes "check_pause_condition self ag w = (Inr (), self', w')"
  shows "paused self' =
           (paused self
            \<and> (\<forall>j<length (pause_conditions self). fst (pause_conditions self ! j) ag = Inr False))"
proof -
  from assms have run: "check_loop (pause_conditions self) 0 self ag w = (Inr (), self', w')"
    by (simp add: check_pause_condition_def)
  show ?thesis
  proof (cases "pause_conditions self" ag rule: conditions_cases)
    case no_match
    from run have "self' = self" unfolding check_loop_no_match [OF no_match] by simp
    with no_match show ?thesis by simp
  next
    case (match k)
    from run have "paused self' = False"
      unfolding check_loop_match [OF match] by (rule handle_pause_ok)
    moreover from match(1,3)
    have "\<not> (\<forall>j<length (pause_conditions self). fst (pause_conditions self ! j) ag = Inr False)"
      by auto
    ultimately show ?thesis by simp
  next
    case (raise k e)
    from run show ?thesis unfolding check_loop_raise [OF raise] by simp
  qed
qed

text \<open>
  C4: an error raised during \<open>check_pause_condition\<close>, a failure of the input channel
  after a match included, leaves no partial pause behind: the paused flag is not true
  after the call. The code at a failing input: the hook is on the console channel with
  the flag false; on the sign-in page \<open>login_page\<close> matches; standard input is at its end,
  so \<open>input\<close> raises \<open>EOFError\<close>. The call raises, and the hook it leaves behind is the
  hook before the call with the paused flag true: the reset that the normal path performs
  is not reached, and nothing catches the exception to perform it.
\<close>

theorem paused_left_true_on_input_failure:
  "paused demo_hook = False
   \<and> login_page ascii_lower signin_page = Inr True
   \<and> fst (check_pause_condition demo_hook signin_page (demo_world [])) = Inl EOFError
   \<and> paused (fst (snd (check_pause_condition demo_hook signin_page (demo_world [])))) = True
   \<and> user_input (fst (snd (check_pause_condition demo_hook signin_page (demo_world [])))) = None"
  by code_simp

text \<open>
  C3: after a \<open>check_pause_condition\<close> call returns normally the paused flag is false,
  and it is false at the start and end of every step. The code at a failing input: the
  hook left by a call that failed in the input channel, with the flag true, is given the
  next step, on a page where no condition matches. The call returns normally and the flag
  is still true, at the start and at the end of this step.
\<close>

theorem paused_true_after_normal_return:
  "paused (fst (snd (check_pause_condition demo_hook signin_page (demo_world [])))) = True
   \<and> password_field dashboard_page = Inr False
   \<and> login_page ascii_lower dashboard_page = Inr False
   \<and> captcha ascii_lower dashboard_page = Inr False
   \<and> fst (check_pause_condition
            (fst (snd (check_pause_condition demo_hook signin_page (demo_world []))))
            dashboard_page
            (snd (snd (check_pause_condition demo_hook signin_page (demo_world []))))) = Inr ()
   \<and> paused (fst (snd (check_pause_condition
            (fst (snd (check_pause_condition demo_hook signin_page (demo_world []))))
            dashboard_page
            (snd (snd (check_pause_condition demo_hook signin_page (demo_world []))))))) = True"
  by code_simp

section \<open>What \<open>check_pause_condition\<close> writes\<close>

text \<open>
  C10: whatever the outcome of \<open>check_pause_condition\<close>, the hook afterwards is the hook
  before with at most \<open>paused\<close> and \<open>user_input\<close> changed: the agent it refers to, the
  registered conditions and the input handler are the same, and so is the
  \<open>PauseManager\<close>. The agent handle is only passed to the predicates, which read it.
\<close>

theorem check_pause_condition_frame:
  assumes "check_pause_condition self ag w = (r, self', w')"
  shows "self' = self\<lparr>paused := paused self', user_input := user_input self'\<rparr>
       \<and> agent self' = agent self
       \<and> pause_conditions self' = pause_conditions self
       \<and> input_handler self' = input_handler self
       \<and> manager w' = manager w"
proof -
  from assms have "check_loop (pause_conditions self) 0 self ag w = (r, self', w')"
    by (simp add: check_pause_condition_def)
  from check_loop_frame [OF this]
  have m: "manager w' = manager w"
    and s: "self' = self\<lparr>paused := paused self', user_input := user_input self'\<rparr>"
    by simp_all
  from s have "agent self' = agent self" "pause_conditions self' = pause_conditions self"
    "input_handler self' = input_handler self"
    by (metis PauseHook.select_convs PauseHook.surjective PauseHook.update_convs)+
  with m s show ?thesis by simp
qed

theorem check_pause_condition_frame_witness:
  "pause_conditions
     (fst (snd (check_pause_condition demo_hook signin_page (demo_world [''hunter2'']))))
     = pause_conditions demo_hook
   \<and> agent (fst (snd (check_pause_condition demo_hook signin_page (demo_world [''hunter2'']))))
     = signin_page
   \<and> input_handler
       (fst (snd (check_pause_condition demo_hook signin_page (demo_world [''hunter2'']))))
     = \<lparr>input_method = ''console''\<rparr>
   \<and> manager (snd (snd (check_pause_condition demo_hook signin_page (demo_world [''hunter2'']))))
     = \<lparr>pause_history = [], input_history = []\<rparr>"
proof -
  let ?res = "check_pause_condition demo_hook signin_page (demo_world [''hunter2''])"
  have "?res = (fst ?res, fst (snd ?res), snd (snd ?res))" by simp
  from check_pause_condition_frame [OF this] show ?thesis
    by (simp add: demo_hook_def demo_world_def add_pause_condition_def)
qed

section \<open>Unknown input methods\<close>

text \<open>
  C5, as the code has it. The claim expects the constructor of \<open>UserInputHandler\<close> to
  reject an unknown kind. The constructor only stores its argument: for the kind
  \<open>telegram\<close> it returns a handler.
\<close>

theorem unknown_input_method_constructs:
  "''telegram'' \<noteq> ''console'' \<and> ''telegram'' \<noteq> ''web''
   \<and> UserInputHandler_init ''telegram'' = Inr \<lparr>input_method = ''telegram''\<rparr>"
  by (simp add: UserInputHandler_init_def)

text \<open>
  C5, amended: for every kind other than \<open>console\<close> and \<open>web\<close>, constructing the handler
  succeeds, and each \<open>get_input\<close> call on it raises \<open>ValueError\<close> naming the kind, without
  writing or reading anything: the check is made at use.
\<close>

theorem unknown_input_method_deferred:
  assumes "method \<noteq> ''console''" and "method \<noteq> ''web''"
  shows "UserInputHandler_init method = Inr \<lparr>input_method = method\<rparr>
       \<and> get_input \<lparr>input_method = method\<rparr> prompt w
           = (Inl (ValueError (''Unknown input method: '' @ method)), w)"
  using assms by (simp add: UserInputHandler_init_def get_input_def)

theorem unknown_input_method_deferred_witness:
  "''telegram'' \<noteq> ''console'' \<and> ''telegram'' \<noteq> ''web''
   \<and> UserInputHandler_init ''telegram'' = Inr \<lparr>input_method = ''telegram''\<rparr>
   \<and> get_input \<lparr>input_method = ''telegram''\<rparr> ''Enter your input: '' (demo_world [''hunter2''])
       = (Inl (ValueError ''Unknown input method: telegram''), demo_world [''hunter2''])"
proof -
  have a: "''telegram'' \<noteq> ''console''" and b: "''telegram'' \<noteq> ''web''" by simp_all
  from unknown_input_method_deferred
         [OF a b, of "''Enter your input: ''" "demo_world [''hunter2'']"] a b
  show ?thesis by simp
qed

section \<open>The detection predicates\<close>

text \<open>
  C6, as the code has it. The claim expects every predicate to ignore letter case.
  \<open>password_field\<close> looks for the literal \<open>type="password"\<close> in the markup as it is:
  written in capitals, the same input element is not detected.
\<close>

theorem password_field_case_sensitive:
  \<open>differ_only_in_ascii_case ''<input TYPE="PASSWORD">'' ''<input type="password">''
   \<and> password_field \<lparr>browser_context = \<lparr>current_url = ''https://example.com/'',
          get_page_html = Inr ''<input TYPE="PASSWORD">''\<rparr>\<rparr> = Inr False
   \<and> password_field \<lparr>browser_context = \<lparr>current_url = ''https://example.com/'',
          get_page_html = Inr ''<input type="password">''\<rparr>\<rparr> = Inr True\<close>
  by code_simp

text \<open>
  C6, amended: \<open>login_page\<close>, \<open>payment_form\<close>, \<open>two_factor_auth\<close>, \<open>captcha\<close> and
  \<open>personal_information_form\<close> ignore letter case as far as \<open>str.lower()\<close> removes it: on
  two agents whose URLs have the same \<open>str.lower()\<close> form and whose page contents have the
  same \<open>str.lower()\<close> form, each returns the same value. \<open>password_field\<close> is true exactly
  when the content as it is holds the literal \<open>type="password"\<close>.
\<close>

theorem conditions_case_insensitive:
  assumes "str_lower (current_url (browser_context a))
             = str_lower (current_url (browser_context b))"
    and "get_page_html (browser_context a) = Inr ca"
    and "get_page_html (browser_context b) = Inr cb"
    and "str_lower ca = str_lower cb"
  shows \<open>login_page str_lower a = login_page str_lower b
       \<and> payment_form str_lower a = payment_form str_lower b
       \<and> two_factor_auth str_lower a = two_factor_auth str_lower b
       \<and> captcha str_lower a = captcha str_lower b
       \<and> personal_information_form str_lower a = personal_information_form str_lower b
       \<and> password_field a = Inr (\<exists>pre post. ca = pre @ ''type="password"'' @ post)\<close>
  using assms
  by (simp add: login_page_def payment_form_def two_factor_auth_def captcha_def
      personal_information_form_def password_field_def py_in_iff)

theorem conditions_case_insensitive_witness:
  "differ_only_in_ascii_case (current_url (browser_context upper_page))
     (current_url (browser_context lower_page))
   \<and> differ_only_in_ascii_case ''Please enter your CVV and the Verification Code''
        ''please enter your cvv and the verification code''
   \<and> ascii_lower (current_url (browser_context upper_page))
       = ascii_lower (current_url (browser_context lower_page))
   \<and> ascii_lower ''Please enter your CVV and the Verification Code''
       = ascii_lower ''please enter your cvv and the verification code''
   \<and> login_page ascii_lower upper_page = login_page ascii_lower lower_page
   \<and> payment_form ascii_lower upper_page = payment_form ascii_lower lower_page
   \<and> two_factor_auth ascii_lower upper_page = two_factor_auth ascii_lower lower_page
   \<and> captcha ascii_lower upper_page = captcha ascii_lower lower_page
   \<and> personal_information_form ascii_lower upper_page
       = personal_information_form ascii_lower lower_page
   \<and> login_page ascii_lower upper_page = Inr True
   \<and> payment_form ascii_lower upper_page = Inr True
   \<and> two_factor_auth ascii_lower upper_page = Inr True
   \<and> captcha ascii_lower upper_page = Inr False
   \<and> personal_information_form ascii_lower upper_page = Inr False"
proof -
  have a: "differ_only_in_ascii_case (current_url (browser_context upper_page))
     (current_url (browser_context lower_page))" by code_simp
  have b: "get_page_html (browser_context upper_page)
             = Inr ''Please enter your CVV and the Verification Code''"
    by (simp add: upper_page_def)
  have c: "get_page_html (browser_context lower_page)
             = Inr ''please enter your cvv and the verification code''"
    by (simp add: lower_page_def)
  have d: "differ_only_in_ascii_case ''Please enter your CVV and the Verification Code''
        ''please enter your cvv and the verification code''" by code_simp
  have a': "ascii_lower (current_url (browser_context upper_page))
              = ascii_lower (current_url (browser_context lower_page))"
    using a by (rule differ_only_in_ascii_case_lower)
  have d': "ascii_lower ''Please enter your CVV and the Verification Code''
              = ascii_lower ''please enter your cvv and the verification code''"
    using d by (rule differ_only_in_ascii_case_lower)
  have e1: "login_page ascii_lower upper_page = Inr True" by code_simp
  have e2: "payment_form ascii_lower upper_page = Inr True" by code_simp
  have e3: "two_factor_auth ascii_lower upper_page = Inr True" by code_simp
  have e4: "captcha ascii_lower upper_page = Inr False" by code_simp
  have e5: "personal_information_form ascii_lower upper_page = Inr False" by code_simp
  note inst = conditions_case_insensitive [OF a' b c d']
  from inst have i1: "login_page ascii_lower upper_page = login_page ascii_lower lower_page"
    by (rule conjunct1)
  from inst [THEN conjunct2]
  have i2: "payment_form ascii_lower upper_page = payment_form ascii_lower lower_page"
    by (rule conjunct1)
  from inst [THEN conjunct2, THEN conjunct2]
  have i3: "two_factor_auth ascii_lower upper_page = two_factor_auth ascii_lower lower_page"
    by (rule conjunct1)
  from inst [THEN conjunct2, THEN conjunct2, THEN conjunct2]
  have i4: "captcha ascii_lower upper_page = captcha ascii_lower lower_page"
    by (rule conjunct1)
  from inst [THEN conjunct2, THEN conjunct2, THEN conjunct2, THEN conjunct2]
  have i5: "personal_information_form ascii_lower upper_page
              = personal_information_form ascii_lower lower_page"
    by (rule conjunct1)
  from a d a' d' i1 i2 i3 i4 i5 e1 e2 e3 e4 e5 show ?thesis
    by (intro conjI)
qed

text \<open>
  C7, as the code has it. The claim expects \<open>payment_form\<close> to be true when the URL
  holds a payment keyword. \<open>payment_form\<close> reads the page content only: with \<open>cvv\<close> in the
  URL and no keyword in the content it returns false.
\<close>

theorem payment_form_ignores_url:
  "py_in ''cvv'' (ascii_lower ''https://shop.example.com/cvv'')
   \<and> list_ex (\<lambda>k. k = ''cvv'') payment_indicators
   \<and> payment_form ascii_lower
        \<lparr>browser_context = \<lparr>current_url = ''https://shop.example.com/cvv'',
          get_page_html = Inr ''<html><body>Welcome</body></html>''\<rparr>\<rparr> = Inr False"
  by code_simp

text \<open>
  C7, amended: when the page content can be read, \<open>payment_form\<close> returns true if and only
  if the lower-cased content contains at least one of the eight payment keywords; the
  URL has no influence on the result.
\<close>

theorem payment_form_content_only:
  assumes "get_page_html (browser_context ag) = Inr page_content"
  shows "payment_form str_lower ag =
           Inr (\<exists>indicator\<in>set payment_indicators.
                  \<exists>pre post. str_lower page_content = pre @ indicator @ post)
         \<and> payment_form str_lower
              (ag\<lparr>browser_context := (browser_context ag)\<lparr>current_url := url\<rparr>\<rparr>)
             = payment_form str_lower ag"
  using assms by (simp add: payment_form_def py_any_iff py_in_iff)

theorem payment_form_content_only_witness:
  "get_page_html (browser_context \<lparr>browser_context = \<lparr>current_url = ''https://example.com/'',
          get_page_html = Inr ''Please enter your CVV''\<rparr>\<rparr>) = Inr ''Please enter your CVV''
   \<and> payment_form ascii_lower \<lparr>browser_context = \<lparr>current_url = ''https://example.com/'',
          get_page_html = Inr ''Please enter your CVV''\<rparr>\<rparr> = Inr True"
proof -
  let ?ag = "\<lparr>browser_context = \<lparr>current_url = ''https://example.com/'',
          get_page_html = Inr ''Please enter your CVV''\<rparr>\<rparr>"
  have h: "get_page_html (browser_context ?ag) = Inr ''Please enter your CVV''" by simp
  have k: "''cvv'' \<in> set payment_indicators" by (simp add: payment_indicators_def)
  have l: "ascii_lower ''Please enter your CVV'' = ''please enter your '' @ ''cvv'' @ []"
    by code_simp
  have e: "\<exists>indicator\<in>set payment_indicators.
             \<exists>pre post. ascii_lower ''Please enter your CVV'' = pre @ indicator @ post"
    using k l by blast
  have "payment_form ascii_lower ?ag = Inr (\<exists>indicator\<in>set payment_indicators.
             \<exists>pre post. ascii_lower ''Please enter your CVV'' = pre @ indicator @ post)"
    using payment_form_content_only [OF h, of ascii_lower "''''"] by (rule conjunct1)
  with e h show ?thesis by simp
qed

section \<open>The pause history\<close>

text \<open>
  C8: the event that \<open>record_pause\<close> stores has \<open>input_provided\<close> a boolean, true exactly
  for a non-empty input; and two calls with the same url and reason and different
  non-empty inputs store histories that agree outside the \<open>timestamp\<close> entries, and are
  the same manager when the clock readings agree. The input text is not stored.
\<close>

theorem record_pause_sanitizes_input:
  "map_of (last (pause_history (record_pause m url reason input t))) ''input_provided''
     = Some (PyBool (input \<noteq> []))
   \<and> (input1 \<noteq> [] \<and> input2 \<noteq> [] \<longrightarrow>
        map without_timestamp (pause_history (record_pause m url reason input1 t1))
          = map without_timestamp (pause_history (record_pause m url reason input2 t2))
        \<and> record_pause m url reason input1 t = record_pause m url reason input2 t)"
  by (simp add: record_pause_def without_timestamp_def)

theorem record_pause_sanitizes_input_witness:
  "''hunter2'' \<noteq> [] \<and> ''correct horse'' \<noteq> []
   \<and> map_of (last (pause_history (record_pause PauseManager_init ''https://example.com/signin''
          ''Login page detected.'' ''hunter2'' 12.5))) ''input_provided'' = Some (PyBool True)
   \<and> map without_timestamp (pause_history (record_pause PauseManager_init
          ''https://example.com/signin'' ''Login page detected.'' ''hunter2'' 12.5))
       = map without_timestamp (pause_history (record_pause PauseManager_init
          ''https://example.com/signin'' ''Login page detected.'' ''correct horse'' 13))"
proof -
  have a: "''hunter2'' \<noteq> [] \<and> ''correct horse'' \<noteq> []" by simp
  note inst = record_pause_sanitizes_input [where m = PauseManager_init
      and url = "''https://example.com/signin''" and reason = "''Login page detected.''"
      and input = "''hunter2''" and t = "12.5" and ?input1.0 = "''hunter2''"
      and ?input2.0 = "''correct horse''" and ?t1.0 = "12.5" and ?t2.0 = 13]
  from inst have 1: "map_of (last (pause_history (record_pause PauseManager_init
          ''https://example.com/signin'' ''Login page detected.'' ''hunter2'' 12.5)))
          ''input_provided'' = Some (PyBool (''hunter2'' \<noteq> []))"
    by (rule conjunct1)
  from inst [THEN conjunct2, THEN mp, OF a, THEN conjunct1] 1 a show ?thesis by simp
qed

lemma record_all_history:
  "pause_history (record_all m calls) = pause_history m @ map event_of calls"
  by (induction m calls rule: record_all.induct) (simp_all add: record_pause_def event_of_def)

text \<open>
  C9: after any sequence of \<open>N\<close> \<open>record_pause\<close> calls on a new manager, made at
  non-decreasing readings of the event loop's clock, \<open>save_history\<close> to a writable path
  stores one list of \<open>N\<close> dicts there; read back, their \<open>url\<close>, \<open>reason\<close> and
  \<open>input_provided\<close> entries are those of the calls, in the order of the calls, and their
  \<open>timestamp\<close> entries are non-decreasing floats.
\<close>

theorem save_history_round_trip:
  assumes "writable fs filename"
    and "sorted (map (\<lambda>(url, reason, input, loop_time). loop_time) calls)"
  shows "\<exists>fs' objs ts.
           save_history (record_all PauseManager_init calls) filename fs = Inr fs'
         \<and> files fs' filename = Some (PyList (map PyDict objs))
         \<and> length objs = length calls
         \<and> map (\<lambda>obj. (map_of obj ''url'', map_of obj ''reason'', map_of obj ''input_provided''))
              objs
             = map (\<lambda>(url, reason, input, loop_time).
                      (Some (PyStr url), Some (PyStr reason), Some (PyBool (input \<noteq> []))))
                 calls
         \<and> map (\<lambda>obj. map_of obj ''timestamp'') objs = map (\<lambda>t. Some (PyFloat t)) ts
         \<and> sorted ts"
proof -
  let ?objs = "map event_of calls"
  let ?ts = "map (\<lambda>(url, reason, input, loop_time). loop_time) calls"
  let ?fs' = "fs\<lparr>files := (files fs)(filename \<mapsto> PyList (map PyDict ?objs))\<rparr>"
  have 1: "save_history (record_all PauseManager_init calls) filename fs = Inr ?fs'"
    using assms(1) by (simp add: save_history_def record_all_history PauseManager_init_def)
  have 2: "files ?fs' filename = Some (PyList (map PyDict ?objs))" by simp
  have 3: "length ?objs = length calls" by simp
  have 4: "map (\<lambda>obj. (map_of obj ''url'', map_of obj ''reason'', map_of obj ''input_provided''))
              ?objs
             = map (\<lambda>(url, reason, input, loop_time).
                      (Some (PyStr url), Some (PyStr reason), Some (PyBool (input \<noteq> []))))
                 calls"
    by (auto simp: event_of_def)
  have 5: "map (\<lambda>obj. map_of obj ''timestamp'') ?objs = map (\<lambda>t. Some (PyFloat t)) ?ts"
    by (auto simp: event_of_def)
  from 1 2 3 4 5 assms(2) show ?thesis by blast
qed

theorem save_history_round_trip_witness:
  "writable demo_fs ''pause_history.json''
   \<and> sorted (map (\<lambda>(url, reason, input, loop_time). loop_time) demo_calls)
   \<and> (\<exists>fs' objs ts.
           save_history (record_all PauseManager_init demo_calls) ''pause_history.json'' demo_fs
             = Inr fs'
         \<and> files fs' ''pause_history.json'' = Some (PyList (map PyDict objs))
         \<and> length objs = length demo_calls
         \<and> map (\<lambda>obj. (map_of obj ''url'', map_of obj ''reason'', map_of obj ''input_provided''))
              objs
             = map (\<lambda>(url, reason, input, loop_time).
                      (Some (PyStr url), Some (PyStr reason), Some (PyBool (input \<noteq> []))))
                 demo_calls
         \<and> map (\<lambda>obj. map_of obj ''timestamp'') objs = map (\<lambda>t. Some (PyFloat t)) ts
         \<and> sorted ts)
   \<and> map_option (\<lambda>fs'. files fs' ''pause_history.json'')
       (case save_history (record_all PauseManager_init demo_calls) ''pause_history.json''
               demo_fs of
          Inl e \<Rightarrow> None | Inr fs' \<Rightarrow> Some fs')
     = Some (Some (PyList
         [PyDict [(''url'', PyStr ''https://example.com/signin''),
                  (''reason'', PyStr ''Login page detected.''),
                  (''input_provided'', PyBool True), (''timestamp'', PyFloat 12.5)],
          PyDict [(''url'', PyStr ''https://example.com/pay''),
                  (''reason'', PyStr ''Payment page detected.''),
                  (''input_provided'', PyBool False), (''timestamp'', PyFloat 12.5)],
          PyDict [(''url'', PyStr ''https://example.com/2fa''),
                  (''reason'', PyStr ''Code required.''),
                  (''input_provided'', PyBool True), (''timestamp'', PyFloat 40)]]))"
proof -
  have a: "writable demo_fs ''pause_history.json''" by (simp add: demo_fs_def)
  have b: "sorted (map (\<lambda>(url, reason, input, loop_time). loop_time) demo_calls)"
    by (simp add: demo_calls_def)
  have c: "map_option (\<lambda>fs'. files fs' ''pause_history.json'')
       (case save_history (record_all PauseManager_init demo_calls) ''pause_history.json''
               demo_fs of
          Inl e \<Rightarrow> None | Inr fs' \<Rightarrow> Some fs')
     = Some (Some (PyList
         [PyDict [(''url'', PyStr ''https://example.com/signin''),
                  (''reason'', PyStr ''Login page detected.''),
                  (''input_provided'', PyBool True), (''timestamp'', PyFloat 12.5)],
          PyDict [(''url'', PyStr ''https://example.com/pay''),
                  (''reason'', PyStr ''Payment page detected.''),
                  (''input_provided'', PyBool False), (''timestamp'', PyFloat 12.5)],
          PyDict [(''url'', PyStr ''https://example.com/2fa''),
                  (''reason'', PyStr ''Code required.''),
                  (''input_provided'', PyBool True), (''timestamp'', PyFloat 40)]]))"
    by (simp add: save_history_def demo_fs_def demo_calls_def record_pause_def
        PauseManager_init_def)
  from save_history_round_trip [OF a b] a b c show ?thesis
    by (intro conjI)
qed

end
